theory Spec2Isabelle
  imports Main "HOL-Library.Multiset"
begin

section \<open>The task table (database.py)\<close>

text \<open>
  A row of \<^verbatim>\<open>task_items\<close>, as the class \<^verbatim>\<open>TaskItem\<close> declares it. Every attribute of
  the Python object can hold \<^verbatim>\<open>None\<close>; \<^verbatim>\<open>id\<close> and \<^verbatim>\<open>added_on\<close> are filled in at the
  insert and no request writes them afterwards, so they are plain values here. \<^verbatim>\<open>title\<close> is
  \<^verbatim>\<open>nullable=False\<close>: the object may carry \<^verbatim>\<open>None\<close> until the flush, which then fails
  (see \<open>update_task\<close>). \<^verbatim>\<open>progress\<close> has a default but no \<^verbatim>\<open>nullable=False\<close>, so
  the column accepts NULL. Timestamps are points on the integer time line (microseconds).
  Strings are lists of 8-bit characters, read as the code points below 256.
\<close>

record TaskItem =
  task_id :: int
  title :: "string option"
  "notes" :: "string option"
  progress :: "string option"
  added_on :: int
  deadline :: "int option"

text \<open>The table: its rows in rowid order, which is the order of a full scan.\<close>

type_synonym db = "TaskItem list"

text \<open>
  What a request can end in: a 422 carrying pydantic's list of field errors
  (\<open>InvalidInput\<close>), the 404 raised by \<^verbatim>\<open>fetch_task_or_404\<close> (\<open>NotFound\<close>), or an
  exception of the store or of its driver that nobody catches (\<open>StoreFailure\<close>, a 500).
\<close>

datatype reason = FieldRequired | NoneNotAllowed | TitleBlank | ProgressInvalid

datatype error = InvalidInput "reason list" | NotFound int | StoreFailure

text \<open>
  \<^verbatim>\<open>id = Column(Integer, primary_key=True)\<close> on the SQLite engine that \<^verbatim>\<open>DB_FILE\<close> names,
  with no \<^verbatim>\<open>sqlite_autoincrement\<close>: the column is the table's rowid, and an insert that
  gives no id gets 1 in an empty table and otherwise one more than the largest rowid
  \<^emph>\<open>now in the table\<close>. At the largest 64-bit rowid the engine leaves that rule and
  probes for an unused id at random; the model does not follow it there and reports that
  the insert did not go through (\<open>None\<close>).
\<close>

definition MAX_ROWID :: int where
  "MAX_ROWID = 9223372036854775807"

definition MIN_ROWID :: int where
  "MIN_ROWID = - 9223372036854775808"

text \<open>
  The integers the SQLite driver takes as a parameter of a statement: the signed 64-bit
  ones. A Python \<^verbatim>\<open>int\<close> has no bound; binding one outside this range raises
  \<^verbatim>\<open>OverflowError\<close>.
\<close>

definition sqlite_integer :: "int \<Rightarrow> bool" where
  "sqlite_integer i = (MIN_ROWID \<le> i \<and> i \<le> MAX_ROWID)"

definition next_rowid :: "db \<Rightarrow> int option" where
  "next_rowid rows =
     (if rows = [] then Some 1
      else if Max (set (map task_id rows)) < MAX_ROWID
        then Some (Max (set (map task_id rows)) + 1)
        else None)"

section \<open>Request schemas (main.py)\<close>

text \<open>
  A field of a JSON request body: left out, given as \<^verbatim>\<open>null\<close>, or given with a value.
  Values are taken after JSON decoding, at the type the schema declares (a string, or a
  parsed timestamp for \<^verbatim>\<open>deadline\<close>).
\<close>

datatype 'a field = Absent | Null | Val 'a

record body =
  b_title :: "string field"
  b_notes :: "string field"
  b_progress :: "string field"
  b_deadline :: "int field"

definition VALID_STATUSES :: "string set" where
  "VALID_STATUSES = {''pending'', ''in_progress'', ''completed''}"

text \<open>
  \<^verbatim>\<open>str.isspace\<close> on the code points below 256: tab to carriage return, the four
  separators 0x1c..0x1f, the space, NEL (0x85) and the no-break space (0xa0).
  \<^verbatim>\<open>str.strip()\<close> drops such characters at both ends.
\<close>

definition isspace :: "char \<Rightarrow> bool" where
  "isspace c = ((of_char c :: nat) \<in> {9, 10, 11, 12, 13, 28, 29, 30, 31, 32, 133, 160})"

definition strip :: "string \<Rightarrow> string" where
  "strip v = rev (dropWhile isspace (rev (dropWhile isspace v)))"

subsection \<open>NewTask\<close>

record NewTask =
  new_title :: string
  new_notes :: "string option"
  new_progress :: "string option"
  new_deadline :: "int option"

definition title_must_exist :: "string \<Rightarrow> reason + string" where
  "title_must_exist v =
     (if v = [] \<or> strip v = [] then Inl TitleBlank else Inr (strip v))"

text \<open>\<^verbatim>\<open>v not in VALID_STATUSES\<close>: \<^verbatim>\<open>None\<close> is not a member.\<close>

definition progress_must_be_valid :: "string option \<Rightarrow> reason + string option" where
  "progress_must_be_valid v =
     (if (case v of None \<Rightarrow> True | Some s \<Rightarrow> s \<notin> VALID_STATUSES)
      then Inl ProgressInvalid else Inr v)"

text \<open>An \<^verbatim>\<open>Optional\<close> field without a validator: \<^verbatim>\<open>null\<close> and a missing key both read None.\<close>

definition optional :: "'a field \<Rightarrow> 'a option" where
  "optional f = (case f of Absent \<Rightarrow> None | Null \<Rightarrow> None | Val v \<Rightarrow> Some v)"

text \<open>
  Each field of \<^verbatim>\<open>NewTask\<close> on its own. \<^verbatim>\<open>title: str\<close> is required and not Optional:
  a missing key and \<^verbatim>\<open>null\<close> are errors before the validator is reached.
  \<^verbatim>\<open>progress\<close> left out takes the default \<^verbatim>\<open>"pending"\<close> without running the validator
  (it is not \<^verbatim>\<open>always\<close>); given, also as \<^verbatim>\<open>null\<close>, it goes through
  \<^verbatim>\<open>progress_must_be_valid\<close>.
\<close>

definition NewTask_title :: "string field \<Rightarrow> reason + string" where
  "NewTask_title f =
     (case f of Absent \<Rightarrow> Inl FieldRequired
      | Null \<Rightarrow> Inl NoneNotAllowed
      | Val v \<Rightarrow> title_must_exist v)"

definition NewTask_progress :: "string field \<Rightarrow> reason + string option" where
  "NewTask_progress f =
     (case f of Absent \<Rightarrow> Inr (Some ''pending'')
      | Null \<Rightarrow> progress_must_be_valid None
      | Val v \<Rightarrow> progress_must_be_valid (Some v))"

definition errors_of :: "reason + 'a \<Rightarrow> reason list" where
  "errors_of r = (case r of Inl e \<Rightarrow> [e] | Inr _ \<Rightarrow> [])"

text \<open>
  Building a \<^verbatim>\<open>NewTask\<close> from a body: every field is validated, in declaration order,
  and the errors of all of them are reported together.
\<close>

definition NewTask_parse :: "body \<Rightarrow> reason list + NewTask" where
  "NewTask_parse b =
     (case (NewTask_title (b_title b), NewTask_progress (b_progress b)) of
        (Inr t, Inr p) \<Rightarrow>
          Inr \<lparr>new_title = t, new_notes = optional (b_notes b),
               new_progress = p, new_deadline = optional (b_deadline b)\<rparr>
      | (rt, rp) \<Rightarrow> Inl (errors_of rt @ errors_of rp))"

subsection \<open>EditTask\<close>

text \<open>
  An \<^verbatim>\<open>EditTask\<close> keeps, for each field, whether the body set it: that is what
  \<^verbatim>\<open>dict(exclude_unset=True)\<close> reads. The payload therefore has the shape of the body.
\<close>

record EditTask =
  edit_title :: "string field"
  edit_notes :: "string field"
  edit_progress :: "string field"
  edit_deadline :: "int field"

definition check_progress :: "string option \<Rightarrow> reason + string option" where
  "check_progress v =
     (if v \<noteq> None \<and> (case v of None \<Rightarrow> True | Some s \<Rightarrow> s \<notin> VALID_STATUSES)
      then Inl ProgressInvalid else Inr v)"

text \<open>
  \<^verbatim>\<open>check_progress\<close> is \<^verbatim>\<open>pre=True, always=True\<close>: it runs on the value given, and on
  the default \<^verbatim>\<open>None\<close> when the key is missing. No other field has a validator.
\<close>

definition EditTask_parse :: "body \<Rightarrow> reason list + EditTask" where
  "EditTask_parse b =
     (case check_progress (optional (b_progress b)) of
        Inl e \<Rightarrow> Inl [e]
      | Inr _ \<Rightarrow>
          Inr \<lparr>edit_title = b_title b, edit_notes = b_notes b,
               edit_progress = b_progress b, edit_deadline = b_deadline b\<rparr>)"

text \<open>
  \<^verbatim>\<open>payload.dict(exclude_unset=True)\<close>: the fields the body set, in declaration order,
  each with its value (\<^verbatim>\<open>None\<close> for an explicit \<^verbatim>\<open>null\<close>).
\<close>

datatype change =
  SetTitle "string option"
  | SetNotes "string option"
  | SetProgress "string option"
  | SetDeadline "int option"

definition given :: "'a field \<Rightarrow> 'a option list" where
  "given f = (case f of Absent \<Rightarrow> [] | Null \<Rightarrow> [None] | Val v \<Rightarrow> [Some v])"

definition changes :: "EditTask \<Rightarrow> change list" where
  "changes p =
     map SetTitle (given (edit_title p)) @ map SetNotes (given (edit_notes p)) @
     map SetProgress (given (edit_progress p)) @ map SetDeadline (given (edit_deadline p))"

fun setattr :: "change \<Rightarrow> TaskItem \<Rightarrow> TaskItem" where
  "setattr (SetTitle v) t = t\<lparr>title := v\<rparr>"
| "setattr (SetNotes v) t = t\<lparr>notes := v\<rparr>"
| "setattr (SetProgress v) t = t\<lparr>progress := v\<rparr>"
| "setattr (SetDeadline v) t = t\<lparr>deadline := v\<rparr>"

section \<open>Handlers (main.py)\<close>

text \<open>
  Each handler takes the table and returns what it answers together with the table it
  leaves. An exception ends the request with the session closed and nothing committed.
  The answer of a handler is the row it returns; turning that row into the \<^verbatim>\<open>TaskOut\<close>
  of the response body is left to the framework and is not modelled.
\<close>

text \<open>
  \<^verbatim>\<open>fetch_task_or_404\<close>: \<^verbatim>\<open>task_id\<close> is the path parameter, any Python \<^verbatim>\<open>int\<close>, and is
  bound as the parameter of \<^verbatim>\<open>WHERE id = ?\<close>. Outside the signed 64-bit range the
  driver raises \<^verbatim>\<open>OverflowError\<close> before any row is looked up, and nobody catches it;
  inside it, the query gives the first row of that id, and the 404 is raised when there
  is none.
\<close>

definition fetch_task_or_404 :: "int \<Rightarrow> db \<Rightarrow> error + TaskItem" where
  "fetch_task_or_404 i rows =
     (if sqlite_integer i
      then (case find (\<lambda>t. task_id t = i) rows of
              None \<Rightarrow> Inl (NotFound i)
            | Some t \<Rightarrow> Inr t)
      else Inl StoreFailure)"

text \<open>
  \<^verbatim>\<open>create_task\<close>: the row is built from the payload; the flush assigns the rowid and
  \<^verbatim>\<open>added_on\<close> (the column default \<^verbatim>\<open>datetime.utcnow\<close>, the reading \<open>now\<close> of the wall
  clock); \<^verbatim>\<open>refresh\<close> reads the row back.
\<close>

definition create_task :: "NewTask \<Rightarrow> int \<Rightarrow> db \<Rightarrow> (error + TaskItem) \<times> db" where
  "create_task payload now rows =
     (case next_rowid rows of
        None \<Rightarrow> (Inl StoreFailure, rows)
      | Some i \<Rightarrow>
          (let task = \<lparr>task_id = i, title = Some (new_title payload),
                       notes = new_notes payload, progress = new_progress payload,
                       added_on = now, deadline = new_deadline payload\<rparr>
           in (Inr task, rows @ [task])))"

text \<open>
  \<^verbatim>\<open>get_all_tasks\<close>: \<^verbatim>\<open>ORDER BY added_on DESC\<close> over a scan of the table. The query names
  no second key; the model sorts the scan stably, so rows of equal \<^verbatim>\<open>added_on\<close> stay in
  rowid order.
\<close>

definition get_all_tasks :: "db \<Rightarrow> TaskItem list" where
  "get_all_tasks rows = sort_key (\<lambda>t. - added_on t) rows"

definition get_single_task :: "int \<Rightarrow> db \<Rightarrow> error + TaskItem" where
  "get_single_task i rows = fetch_task_or_404 i rows"

text \<open>
  \<^verbatim>\<open>update_task\<close>: the loop sets each changed attribute on the fetched object. The
  commit writes the changed columns to the row of that id
  (\<^verbatim>\<open>UPDATE task_items SET ... WHERE id = ?\<close>); it fails, with nothing written, when
  \<^verbatim>\<open>title\<close> (\<^verbatim>\<open>nullable=False\<close>) is set to NULL. \<^verbatim>\<open>refresh\<close> reads the row back.
\<close>

definition update_task :: "int \<Rightarrow> EditTask \<Rightarrow> db \<Rightarrow> (error + TaskItem) \<times> db" where
  "update_task i payload rows =
     (case fetch_task_or_404 i rows of
        Inl e \<Rightarrow> (Inl e, rows)
      | Inr task \<Rightarrow>
          (let cs = changes payload
           in if SetTitle None \<in> set cs
              then (Inl StoreFailure, rows)
              else (Inr (fold setattr cs task),
                    map (\<lambda>r. if task_id r = i then fold setattr cs r else r) rows)))"

text \<open>\<^verbatim>\<open>remove_task\<close>: \<^verbatim>\<open>DELETE ... WHERE id = ?\<close>; the answer is 204 with no content.\<close>

definition remove_task :: "int \<Rightarrow> db \<Rightarrow> (error + unit) \<times> db" where
  "remove_task i rows =
     (case fetch_task_or_404 i rows of
        Inl e \<Rightarrow> (Inl e, rows)
      | Inr task \<Rightarrow> (Inr (), filter (\<lambda>r. task_id r \<noteq> i) rows))"

subsection \<open>Routes\<close>

text \<open>
  A handler declared with \<^verbatim>\<open>payload: NewTask\<close> or \<^verbatim>\<open>payload: EditTask\<close> is called with
  the schema object already built from the request body: when building it fails, the
  request is answered 422 and the handler body never runs.
\<close>

definition post_tasks :: "body \<Rightarrow> int \<Rightarrow> db \<Rightarrow> (error + TaskItem) \<times> db" where
  "post_tasks b now rows =
     (case NewTask_parse b of
        Inl es \<Rightarrow> (Inl (InvalidInput es), rows)
      | Inr payload \<Rightarrow> create_task payload now rows)"

definition put_task :: "int \<Rightarrow> body \<Rightarrow> db \<Rightarrow> (error + TaskItem) \<times> db" where
  "put_task i b rows =
     (case EditTask_parse b of
        Inl es \<Rightarrow> (Inl (InvalidInput es), rows)
      | Inr payload \<Rightarrow> update_task i payload rows)"

text \<open>A client's requests that write, and the table after a sequence of them.\<close>

datatype request = Create body int | Update int body | Delete int

fun handle :: "request \<Rightarrow> db \<Rightarrow> db" where
  "handle (Create b now) rows = snd (post_tasks b now rows)"
| "handle (Update i b) rows = snd (put_task i b rows)"
| "handle (Delete i) rows = snd (remove_task i rows)"

definition run :: "request list \<Rightarrow> db \<Rightarrow> db" where
  "run rs rows = fold handle rs rows"

text \<open>The ids that the creates of a sequence of requests were given, oldest first.\<close>

fun issued :: "request list \<Rightarrow> db \<Rightarrow> int list" where
  "issued [] rows = []"
| "issued (Create b now # rs) rows =
     (case fst (post_tasks b now rows) of
        Inr t \<Rightarrow> task_id t # issued rs (handle (Create b now) rows)
      | Inl _ \<Rightarrow> issued rs (handle (Create b now) rows))"
| "issued (r # rs) rows = issued rs (handle r rows)"

text \<open>The body \<^verbatim>\<open>{}\<close>, and what the spec calls a blank title.\<close>

definition no_fields :: body where
  "no_fields = \<lparr>b_title = Absent, b_notes = Absent, b_progress = Absent, b_deadline = Absent\<rparr>"

definition blank :: "string option \<Rightarrow> bool" where
  "blank v = (case v of None \<Rightarrow> True | Some s \<Rightarrow> strip s = [])"

section \<open>Facts about the handlers\<close>

subsection \<open>Rows, ids and the look-up\<close>

lemma task_id_setattr: "task_id (setattr c t) = task_id t"
  by (cases c) simp_all

lemma added_on_setattr: "added_on (setattr c t) = added_on t"
  by (cases c) simp_all

lemma task_id_fold_setattr: "task_id (fold setattr cs t) = task_id t"
  by (induction cs arbitrary: t) (simp_all add: task_id_setattr)

lemma added_on_fold_setattr: "added_on (fold setattr cs t) = added_on t"
  by (induction cs arbitrary: t) (simp_all add: added_on_setattr)

lemma fetch_Inr_iff:
  "fetch_task_or_404 i rows = Inr t \<longleftrightarrow>
     sqlite_integer i \<and> find (\<lambda>r. task_id r = i) rows = Some t"
  by (simp add: fetch_task_or_404_def split: option.splits)

lemma fetch_absent:
  assumes "sqlite_integer i" and "i \<notin> task_id ` set rows"
  shows "fetch_task_or_404 i rows = Inl (NotFound i)"
proof -
  from assms(2) have "find (\<lambda>r. task_id r = i) rows = None"
    by (auto simp: find_None_iff)
  with assms(1) show ?thesis
    by (simp add: fetch_task_or_404_def)
qed

text \<open>An id that the driver cannot bind ends the look-up with the uncaught exception.\<close>

lemma fetch_out_of_range:
  "\<not> sqlite_integer i \<Longrightarrow> fetch_task_or_404 i rows = Inl StoreFailure"
  by (simp add: fetch_task_or_404_def)

lemma fetch_Inr_D:
  "fetch_task_or_404 i rows = Inr t \<Longrightarrow> sqlite_integer i \<and> t \<in> set rows \<and> task_id t = i"
  by (auto simp: fetch_Inr_iff find_Some_iff)

lemma next_rowid_fresh: "next_rowid rows = Some i \<Longrightarrow> i \<notin> task_id ` set rows"
proof
  assume n: "next_rowid rows = Some i" and m: "i \<in> task_id ` set rows"
  then have ne: "rows \<noteq> []" by auto
  with n have i: "i = Max (set (map task_id rows)) + 1"
    by (simp add: next_rowid_def split: if_splits)
  from m have "i \<le> Max (set (map task_id rows))"
    by (intro Max_ge) auto
  with i show False by simp
qed

lemma distinct_create:
  assumes "distinct (map task_id rows)"
  shows "distinct (map task_id (snd (create_task p now rows)))"
  using assms next_rowid_fresh [of rows]
  by (auto simp: create_task_def Let_def split: option.splits)

lemma ids_update: "map task_id (snd (update_task i p rows)) = map task_id rows"
  by (auto simp: update_task_def Let_def task_id_fold_setattr split: sum.splits)

lemma distinct_remove:
  assumes "distinct (map task_id rows)"
  shows "distinct (map task_id (snd (remove_task i rows)))"
  using assms by (auto simp: remove_task_def distinct_map_filter split: sum.splits)

lemma distinct_handle:
  assumes "distinct (map task_id rows)"
  shows "distinct (map task_id (handle r rows))"
proof (cases r)
  case (Create b now)
  then show ?thesis
    using assms by (auto simp: post_tasks_def distinct_create split: sum.splits)
next
  case (Update i b)
  then show ?thesis
    using assms by (auto simp: put_task_def ids_update split: sum.splits)
next
  case (Delete i)
  then show ?thesis using assms by (simp add: distinct_remove)
qed

lemma distinct_run:
  "distinct (map task_id rows) \<Longrightarrow> distinct (map task_id (run rs rows))"
  unfolding run_def by (induction rs arbitrary: rows) (simp_all add: distinct_handle)

subsection \<open>Ids\<close>

text \<open>
  C4. As stated (no id is ever issued twice, also after a delete) the claim fails: the
  table hands out one more than the largest id it holds, so the id of a deleted newest
  record is issued again.
\<close>

theorem id_issued_twice:
  "issued [Create (no_fields\<lparr>b_title := Val ''A''\<rparr>) 0, Delete 1,
           Create (no_fields\<lparr>b_title := Val ''B''\<rparr>) 1] [] = [1, 1]"
  by code_simp

text \<open>
  C4, amended. After every sequence of create, update and delete requests on the empty
  table, the records in the table have pairwise distinct ids: a create never assigns an
  id that a stored record holds.
\<close>

theorem ids_unique_in_store: "distinct (map task_id (run rs []))"
  by (rule distinct_run) simp

subsection \<open>Validation of a new task\<close>

lemma dropWhile_id: "xs = [] \<or> \<not> P (hd xs) \<Longrightarrow> dropWhile P xs = xs"
  by (cases xs) auto

lemma hd_rev_dropWhile_rev:
  assumes "dropWhile P (rev w) \<noteq> []"
  shows "hd (rev (dropWhile P (rev w))) = hd w"
proof -
  have "rev w = takeWhile P (rev w) @ dropWhile P (rev w)" by simp
  then have "w = rev (dropWhile P (rev w)) @ rev (takeWhile P (rev w))"
    by (metis rev_append rev_rev_ident)
  with assms show ?thesis
    by (metis hd_append2 rev_is_Nil_conv)
qed

text \<open>A stripped string has no white space left at either end: stripping it again changes nothing.\<close>

lemma strip_idem: "strip (strip v) = strip v"
proof -
  define w where "w = dropWhile isspace v"
  define u where "u = dropWhile isspace (rev w)"
  have w: "w = [] \<or> \<not> isspace (hd w)"
    unfolding w_def by (metis hd_dropWhile)
  have "rev u = [] \<or> \<not> isspace (hd (rev u))"
  proof (cases "u = []")
    case True
    then show ?thesis by simp
  next
    case False
    then have "hd (rev u) = hd w" and "w \<noteq> []"
      unfolding u_def by (auto simp: hd_rev_dropWhile_rev)
    with w show ?thesis by simp
  qed
  then have "dropWhile isspace (rev u) = rev u"
    by (rule dropWhile_id)
  moreover have "dropWhile isspace u = u"
    unfolding u_def by (simp add: dropWhile_idem)
  ultimately show ?thesis
    by (simp add: strip_def w_def [symmetric] u_def [symmetric])
qed

lemma title_must_exist_Inr:
  "title_must_exist v = Inr s \<longleftrightarrow> s = strip v \<and> strip v \<noteq> []"
  by (auto simp: title_must_exist_def strip_def)

lemma NewTask_parse_title:
  assumes "NewTask_parse b = Inr p"
  shows "\<exists>v. b_title b = Val v \<and> new_title p = strip v \<and> strip v \<noteq> []"
  using assms
  by (auto simp: NewTask_parse_def NewTask_title_def title_must_exist_Inr
      split: field.splits sum.splits)

lemma NewTask_parse_progress:
  assumes "NewTask_parse b = Inr p"
  shows "new_progress p =
           (case b_progress b of Absent \<Rightarrow> Some ''pending'' | Null \<Rightarrow> None | Val s \<Rightarrow> Some s) \<and>
         b_progress b \<noteq> Null \<and> (\<exists>s\<in>VALID_STATUSES. new_progress p = Some s)"
  using assms
  by (auto simp: NewTask_parse_def NewTask_progress_def progress_must_be_valid_def
      VALID_STATUSES_def split: field.splits sum.splits if_splits)

text \<open>
  C7. A create request whose title is blank after trimming (or is missing or
  \<^verbatim>\<open>null\<close>, the field being required), or whose progress is given and is not one of the
  three statuses (\<^verbatim>\<open>null\<close> included), is answered \<open>InvalidInput\<close> with the table as it
  was; every other body passes validation.
\<close>

theorem create_validation:
  "if (case b_title b of Val v \<Rightarrow> strip v = [] | _ \<Rightarrow> True) \<or>
      (case b_progress b of Absent \<Rightarrow> False | Null \<Rightarrow> True | Val s \<Rightarrow> s \<notin> VALID_STATUSES)
   then \<exists>es. es \<noteq> [] \<and> NewTask_parse b = Inl es \<and>
          post_tasks b now rows = (Inl (InvalidInput es), rows)
   else \<exists>p. NewTask_parse b = Inr p"
  by (auto simp: post_tasks_def NewTask_parse_def NewTask_title_def NewTask_progress_def
      title_must_exist_def progress_must_be_valid_def errors_of_def strip_def
      split: field.splits sum.splits)

text \<open>The two rejections the spec names, and a body that passes.\<close>

theorem create_validation_witness:
  "post_tasks (no_fields\<lparr>b_title := Val ''   ''\<rparr>) 5 [] = (Inl (InvalidInput [TitleBlank]), []) \<and>
   post_tasks (no_fields\<lparr>b_title := Val ''A'', b_progress := Val ''archived''\<rparr>) 5 [] =
     (Inl (InvalidInput [ProgressInvalid]), []) \<and>
   NewTask_parse (no_fields\<lparr>b_title := Val '' A ''\<rparr>) =
     Inr \<lparr>new_title = ''A'', new_notes = None, new_progress = Some ''pending'',
          new_deadline = None\<rparr>"
proof -
  have s: "strip ''   '' = []" "strip ''A'' = ''A''" "strip '' A '' = ''A''"
    by (simp_all add: strip_def isspace_def)
  have v: "''archived'' \<notin> VALID_STATUSES"
    by (simp add: VALID_STATUSES_def)
  have a: "\<exists>es. es \<noteq> [] \<and> NewTask_parse (no_fields\<lparr>b_title := Val ''   ''\<rparr>) = Inl es \<and>
      post_tasks (no_fields\<lparr>b_title := Val ''   ''\<rparr>) 5 [] = (Inl (InvalidInput es), [])"
    using create_validation [of "no_fields\<lparr>b_title := Val ''   ''\<rparr>" 5 "[]"]
    by (simp add: s no_fields_def)
  have b: "NewTask_parse (no_fields\<lparr>b_title := Val ''   ''\<rparr>) = Inl [TitleBlank]"
    by (simp add: NewTask_parse_def NewTask_title_def NewTask_progress_def title_must_exist_def
        errors_of_def s no_fields_def)
  have c: "post_tasks (no_fields\<lparr>b_title := Val ''A'', b_progress := Val ''archived''\<rparr>) 5 [] =
      (Inl (InvalidInput [ProgressInvalid]), [])"
    by (simp add: post_tasks_def NewTask_parse_def NewTask_title_def NewTask_progress_def
        title_must_exist_def progress_must_be_valid_def errors_of_def s v no_fields_def)
  have d: "NewTask_parse (no_fields\<lparr>b_title := Val '' A ''\<rparr>) =
      Inr \<lparr>new_title = ''A'', new_notes = None, new_progress = Some ''pending'',
           new_deadline = None\<rparr>"
    by (simp add: NewTask_parse_def NewTask_title_def NewTask_progress_def title_must_exist_def
        optional_def s no_fields_def)
  from a b c d show ?thesis by auto
qed

subsection \<open>Creating a task\<close>

lemma next_rowid_below:
  assumes "list_all (\<lambda>r. task_id r < MAX_ROWID) rows"
  shows "\<exists>i. next_rowid rows = Some i"
proof (cases "rows = []")
  case True
  then show ?thesis by (simp add: next_rowid_def)
next
  case False
  then have "Max (set (map task_id rows)) \<in> set (map task_id rows)"
    by (intro Max_in) auto
  with assms have "Max (set (map task_id rows)) < MAX_ROWID"
    by (auto simp: list_all_iff)
  with False show ?thesis by (simp add: next_rowid_def)
qed

lemma post_tasks_Inr:
  assumes "post_tasks b now rows = (Inr t, rows')"
  shows "rows' = rows @ [t] \<and> added_on t = now \<and>
         (\<exists>v. b_title b = Val v \<and> title t = Some (strip v) \<and> strip v \<noteq> [])"
  using assms
  by (auto simp: post_tasks_def create_task_def Let_def
      split: sum.splits option.splits dest: NewTask_parse_title)

text \<open>What a create stores as title is trimmed and not blank.\<close>

lemma post_tasks_title_not_blank:
  assumes "post_tasks b now rows = (Inr t, rows')"
  shows "\<not> blank (title t)"
  using post_tasks_Inr [OF assms] by (auto simp: blank_def strip_idem)

text \<open>
  C8. As stated (the id was never issued before) the claim fails on the same rule as C4:
  after the only record is deleted, the next create is given its id again.
\<close>

theorem create_reuses_deleted_id:
  "issued [Create (no_fields\<lparr>b_title := Val ''A''\<rparr>) 0, Delete 1] [] = [1] \<and>
   run [Create (no_fields\<lparr>b_title := Val ''A''\<rparr>) 0, Delete 1] [] = [] \<and>
   post_tasks (no_fields\<lparr>b_title := Val ''B''\<rparr>) 1 [] =
     (Inr \<lparr>task_id = 1, title = Some ''B'', notes = None, progress = Some ''pending'',
           added_on = 1, deadline = None\<rparr>,
      [\<lparr>task_id = 1, title = Some ''B'', notes = None, progress = Some ''pending'',
        added_on = 1, deadline = None\<rparr>])"
  by code_simp

text \<open>
  C8, amended. For a body that passes validation, on a table whose ids are below the
  largest rowid, the create returns a record that it appends to the table, whose id no
  record of the table holds, whose progress is the one given or \<^verbatim>\<open>pending\<close> when none
  was, and whose \<^verbatim>\<open>added_on\<close> is the clock reading of the create.
\<close>

theorem create_returns_record:
  assumes "NewTask_parse b = Inr p" and "list_all (\<lambda>r. task_id r < MAX_ROWID) rows"
  shows "\<exists>t. post_tasks b now rows = (Inr t, rows @ [t]) \<and>
             task_id t \<notin> task_id ` set rows \<and>
             progress t = (case b_progress b of Val s \<Rightarrow> Some s | _ \<Rightarrow> Some ''pending'') \<and>
             added_on t = now"
proof -
  from assms(2) obtain i where i: "next_rowid rows = Some i"
    using next_rowid_below by blast
  then have "i \<notin> task_id ` set rows" by (rule next_rowid_fresh)
  moreover from NewTask_parse_progress [OF assms(1)]
  have "new_progress p = (case b_progress b of Val s \<Rightarrow> Some s | _ \<Rightarrow> Some ''pending'')"
    by (auto split: field.splits)
  ultimately show ?thesis
    using assms(1) i by (simp add: post_tasks_def create_task_def Let_def)
qed

theorem create_returns_record_witness:
  "NewTask_parse (no_fields\<lparr>b_title := Val '' B '', b_progress := Val ''completed''\<rparr>) =
     Inr \<lparr>new_title = ''B'', new_notes = None, new_progress = Some ''completed'',
          new_deadline = None\<rparr> \<and>
   list_all (\<lambda>r. task_id r < MAX_ROWID)
     [\<lparr>task_id = 1, title = Some ''A'', notes = None, progress = Some ''pending'',
       added_on = 10, deadline = None\<rparr>] \<and>
   post_tasks (no_fields\<lparr>b_title := Val '' B '', b_progress := Val ''completed''\<rparr>) 11
     [\<lparr>task_id = 1, title = Some ''A'', notes = None, progress = Some ''pending'',
       added_on = 10, deadline = None\<rparr>] =
     (Inr \<lparr>task_id = 2, title = Some ''B'', notes = None, progress = Some ''completed'',
           added_on = 11, deadline = None\<rparr>,
      [\<lparr>task_id = 1, title = Some ''A'', notes = None, progress = Some ''pending'',
        added_on = 10, deadline = None\<rparr>,
       \<lparr>task_id = 2, title = Some ''B'', notes = None, progress = Some ''completed'',
        added_on = 11, deadline = None\<rparr>])"
proof -
  let ?a = "\<lparr>task_id = 1, title = Some ''A'', notes = None, progress = Some ''pending'',
       added_on = 10, deadline = None\<rparr>"
  let ?b = "no_fields\<lparr>b_title := Val '' B '', b_progress := Val ''completed''\<rparr>"
  have p: "NewTask_parse ?b =
     Inr \<lparr>new_title = ''B'', new_notes = None, new_progress = Some ''completed'',
          new_deadline = None\<rparr>"
    by (simp add: NewTask_parse_def NewTask_title_def NewTask_progress_def title_must_exist_def
        progress_must_be_valid_def VALID_STATUSES_def strip_def isspace_def optional_def
        no_fields_def)
  have m: "list_all (\<lambda>r. task_id r < MAX_ROWID) [?a]"
    by (simp add: MAX_ROWID_def)
  have e: "post_tasks ?b 11 [?a] =
     (Inr \<lparr>task_id = 2, title = Some ''B'', notes = None, progress = Some ''completed'',
           added_on = 11, deadline = None\<rparr>,
      [?a, \<lparr>task_id = 2, title = Some ''B'', notes = None, progress = Some ''completed'',
           added_on = 11, deadline = None\<rparr>])"
    by (simp add: post_tasks_def p create_task_def next_rowid_def MAX_ROWID_def Let_def)
  from create_returns_record [OF p m, of 11] p m e show ?thesis
    by simp
qed

subsection \<open>Updating a task\<close>

lemma title_changes:
  "title (fold setattr (changes p) t) =
     (case edit_title p of Absent \<Rightarrow> title t | Null \<Rightarrow> None | Val v \<Rightarrow> Some v)"
  by (simp add: changes_def given_def split: field.splits)

lemma notes_changes:
  "notes (fold setattr (changes p) t) =
     (case edit_notes p of Absent \<Rightarrow> notes t | Null \<Rightarrow> None | Val v \<Rightarrow> Some v)"
  by (simp add: changes_def given_def split: field.splits)

lemma progress_changes:
  "progress (fold setattr (changes p) t) =
     (case edit_progress p of Absent \<Rightarrow> progress t | Null \<Rightarrow> None | Val v \<Rightarrow> Some v)"
  by (simp add: changes_def given_def split: field.splits)

lemma deadline_changes:
  "deadline (fold setattr (changes p) t) =
     (case edit_deadline p of Absent \<Rightarrow> deadline t | Null \<Rightarrow> None | Val v \<Rightarrow> Some v)"
  by (simp add: changes_def given_def split: field.splits)

lemma SetTitle_None_changes: "SetTitle None \<in> set (changes p) \<longleftrightarrow> edit_title p = Null"
  by (auto simp: changes_def given_def split: field.splits)

lemma EditTask_parse_Inr:
  "EditTask_parse b = Inr p \<Longrightarrow>
     edit_title p = b_title b \<and> edit_notes p = b_notes b \<and>
     edit_progress p = b_progress b \<and> edit_deadline p = b_deadline b"
  by (auto simp: EditTask_parse_def split: sum.splits)

lemma EditTask_parse_no_fields:
  "EditTask_parse no_fields =
     Inr \<lparr>edit_title = Absent, edit_notes = Absent, edit_progress = Absent,
          edit_deadline = Absent\<rparr>"
  by (simp add: EditTask_parse_def no_fields_def check_progress_def optional_def)

lemma put_task_Inr:
  assumes "put_task i b rows = (Inr t', rows')"
  obtains p t where "EditTask_parse b = Inr p" "fetch_task_or_404 i rows = Inr t"
    "t' = fold setattr (changes p) t"
    "rows' = map (\<lambda>r. if task_id r = i then fold setattr (changes p) r else r) rows"
  using assms
  by (auto simp: put_task_def update_task_def Let_def split: sum.splits if_splits)

lemma find_map_update:
  assumes "find (\<lambda>r. task_id r = i) rows = Some t" and "\<And>r. task_id (f r) = task_id r"
  shows "find (\<lambda>r. task_id r = i) (map (\<lambda>r. if task_id r = i then f r else r) rows) =
         Some (f t)"
  using assms by (induction rows) (auto split: if_splits)

lemma filter_map_update:
  assumes "\<And>r. task_id (f r) = task_id r"
  shows "filter (\<lambda>r. task_id r \<noteq> i) (map (\<lambda>r. if task_id r = i then f r else r) rows) =
         filter (\<lambda>r. task_id r \<noteq> i) rows"
  using assms by (induction rows) auto

text \<open>
  An update of an existing task goes through when its progress, if given, is one of the
  three statuses or \<^verbatim>\<open>null\<close>, and its title is not \<^verbatim>\<open>null\<close>.
\<close>

lemma put_task_succeeds:
  assumes "fetch_task_or_404 i rows = Inr t"
    and "case b_progress b of Val s \<Rightarrow> s \<in> VALID_STATUSES | _ \<Rightarrow> True"
    and "b_title b \<noteq> Null"
  shows "\<exists>t' rows'. put_task i b rows = (Inr t', rows')"
proof -
  from assms(2) obtain p where p: "EditTask_parse b = Inr p"
    by (auto simp: EditTask_parse_def check_progress_def optional_def split: field.splits)
  with assms(3) have "SetTitle None \<notin> set (changes p)"
    using EditTask_parse_Inr [OF p] by (simp add: SetTitle_None_changes)
  with p assms(1) show ?thesis
    by (simp add: put_task_def update_task_def Let_def)
qed

lemma put_task_Inl:
  assumes "put_task i b rows = (Inl e, rows')"
  shows "rows' = rows"
  using assms
  by (auto simp: put_task_def update_task_def Let_def split: sum.splits if_splits)

lemma put_task_Inr_frame:
  assumes "fetch_task_or_404 i rows = Inr t" and "put_task i b rows = (Inr t', rows')"
  shows "task_id t' = task_id t \<and> added_on t' = added_on t \<and>
         title t' = (case b_title b of Absent \<Rightarrow> title t | Null \<Rightarrow> None | Val v \<Rightarrow> Some v) \<and>
         notes t' = (case b_notes b of Absent \<Rightarrow> notes t | Null \<Rightarrow> None | Val v \<Rightarrow> Some v) \<and>
         progress t' =
           (case b_progress b of Absent \<Rightarrow> progress t | Null \<Rightarrow> None | Val v \<Rightarrow> Some v) \<and>
         deadline t' =
           (case b_deadline b of Absent \<Rightarrow> deadline t | Null \<Rightarrow> None | Val v \<Rightarrow> Some v) \<and>
         fetch_task_or_404 i rows' = Inr t' \<and>
         filter (\<lambda>r. task_id r \<noteq> i) rows' = filter (\<lambda>r. task_id r \<noteq> i) rows"
proof -
  from assms(2) obtain p u where p: "EditTask_parse b = Inr p"
    and u: "fetch_task_or_404 i rows = Inr u"
    and t': "t' = fold setattr (changes p) u"
    and rows': "rows' = map (\<lambda>r. if task_id r = i then fold setattr (changes p) r else r) rows"
    by (rule put_task_Inr)
  from u assms(1) have [simp]: "u = t" by simp
  note f = EditTask_parse_Inr [OF p]
  have "fetch_task_or_404 i rows' = Inr t'"
    using assms(1) unfolding fetch_Inr_iff rows' t'
    by (simp add: find_map_update task_id_fold_setattr)
  moreover have "filter (\<lambda>r. task_id r \<noteq> i) rows' = filter (\<lambda>r. task_id r \<noteq> i) rows"
    unfolding rows' by (rule filter_map_update) (simp add: task_id_fold_setattr)
  ultimately show ?thesis
    using f
    by (simp add: t' task_id_fold_setattr added_on_fold_setattr title_changes notes_changes
        progress_changes deadline_changes)
qed

text \<open>
  C6. For every update request on an existing task: when the update goes through, the
  record is left with exactly the fields of the body set (to the value given, \<^verbatim>\<open>null\<close>
  clearing the field) and the others, the id and \<^verbatim>\<open>added_on\<close> as they were; the
  record returned is the one then stored under the id, and the records of other ids are
  untouched. When it does not go through, the table is as it was.
\<close>

theorem update_frame:
  assumes "fetch_task_or_404 i rows = Inr t"
  shows "case put_task i b rows of
           (Inl e, rows') \<Rightarrow> rows' = rows
         | (Inr t', rows') \<Rightarrow>
             task_id t' = task_id t \<and> added_on t' = added_on t \<and>
             title t' =
               (case b_title b of Absent \<Rightarrow> title t | Null \<Rightarrow> None | Val v \<Rightarrow> Some v) \<and>
             notes t' =
               (case b_notes b of Absent \<Rightarrow> notes t | Null \<Rightarrow> None | Val v \<Rightarrow> Some v) \<and>
             progress t' =
               (case b_progress b of Absent \<Rightarrow> progress t | Null \<Rightarrow> None | Val v \<Rightarrow> Some v) \<and>
             deadline t' =
               (case b_deadline b of Absent \<Rightarrow> deadline t | Null \<Rightarrow> None | Val v \<Rightarrow> Some v) \<and>
             fetch_task_or_404 i rows' = Inr t' \<and>
             filter (\<lambda>r. task_id r \<noteq> i) rows' = filter (\<lambda>r. task_id r \<noteq> i) rows"
proof (cases "put_task i b rows")
  case (Pair res rows')
  show ?thesis
  proof (cases res)
    case (Inl e)
    with Pair show ?thesis
      by (simp add: put_task_Inl)
  next
    case (Inr t')
    with Pair put_task_Inr_frame [OF assms, of b t' rows'] show ?thesis
      by simp
  qed
qed

text \<open>
  The spec's example: a body that gives only \<^verbatim>\<open>notes\<close> sets \<^verbatim>\<open>notes\<close> and leaves
  \<^verbatim>\<open>title\<close>, \<^verbatim>\<open>progress\<close> and \<^verbatim>\<open>deadline\<close> as they were.
\<close>

theorem update_frame_witness:
  "fetch_task_or_404 1
     [\<lparr>task_id = 1, title = Some ''A'', notes = None, progress = Some ''pending'',
       added_on = 10, deadline = Some 20\<rparr>] =
     Inr \<lparr>task_id = 1, title = Some ''A'', notes = None, progress = Some ''pending'',
          added_on = 10, deadline = Some 20\<rparr> \<and>
   put_task 1 (no_fields\<lparr>b_notes := Val ''x''\<rparr>)
     [\<lparr>task_id = 1, title = Some ''A'', notes = None, progress = Some ''pending'',
       added_on = 10, deadline = Some 20\<rparr>] =
     (Inr \<lparr>task_id = 1, title = Some ''A'', notes = Some ''x'', progress = Some ''pending'',
           added_on = 10, deadline = Some 20\<rparr>,
      [\<lparr>task_id = 1, title = Some ''A'', notes = Some ''x'', progress = Some ''pending'',
        added_on = 10, deadline = Some 20\<rparr>])"
proof -
  let ?t = "\<lparr>task_id = 1, title = Some ''A'', notes = None, progress = Some ''pending'',
       added_on = 10, deadline = Some 20\<rparr>"
  let ?t' = "\<lparr>task_id = 1, title = Some ''A'', notes = Some ''x'', progress = Some ''pending'',
       added_on = 10, deadline = Some 20\<rparr>"
  have f: "fetch_task_or_404 1 [?t] = Inr ?t"
    by (simp add: fetch_task_or_404_def sqlite_integer_def MIN_ROWID_def MAX_ROWID_def)
  have p: "put_task 1 (no_fields\<lparr>b_notes := Val ''x''\<rparr>) [?t] = (Inr ?t', [?t'])"
    by (simp add: put_task_def EditTask_parse_def check_progress_def optional_def no_fields_def
        update_task_def f changes_def given_def)
  from update_frame [OF f, of "no_fields\<lparr>b_notes := Val ''x''\<rparr>"] f p show ?thesis
    by simp
qed

text \<open>
  C10. An update of an existing task with the body \<^verbatim>\<open>{}\<close> goes through, returns the
  stored record as it is and leaves the table as it is.
\<close>

theorem update_nothing_is_identity:
  assumes "fetch_task_or_404 i rows = Inr t"
  shows "put_task i no_fields rows = (Inr t, rows)"
  using assms
  by (simp add: put_task_def EditTask_parse_no_fields update_task_def changes_def given_def
      map_idI)

theorem update_nothing_is_identity_witness:
  "fetch_task_or_404 2
     [\<lparr>task_id = 1, title = Some ''A'', notes = None, progress = Some ''pending'',
       added_on = 10, deadline = None\<rparr>,
      \<lparr>task_id = 2, title = Some ''B'', notes = Some ''n'', progress = Some ''completed'',
       added_on = 11, deadline = Some 30\<rparr>] =
     Inr \<lparr>task_id = 2, title = Some ''B'', notes = Some ''n'', progress = Some ''completed'',
       added_on = 11, deadline = Some 30\<rparr> \<and>
   put_task 2 no_fields
     [\<lparr>task_id = 1, title = Some ''A'', notes = None, progress = Some ''pending'',
       added_on = 10, deadline = None\<rparr>,
      \<lparr>task_id = 2, title = Some ''B'', notes = Some ''n'', progress = Some ''completed'',
       added_on = 11, deadline = Some 30\<rparr>] =
     (Inr \<lparr>task_id = 2, title = Some ''B'', notes = Some ''n'', progress = Some ''completed'',
       added_on = 11, deadline = Some 30\<rparr>,
      [\<lparr>task_id = 1, title = Some ''A'', notes = None, progress = Some ''pending'',
       added_on = 10, deadline = None\<rparr>,
      \<lparr>task_id = 2, title = Some ''B'', notes = Some ''n'', progress = Some ''completed'',
       added_on = 11, deadline = Some 30\<rparr>])"
proof -
  let ?a = "\<lparr>task_id = 1, title = Some ''A'', notes = None, progress = Some ''pending'',
       added_on = 10, deadline = None\<rparr>"
  let ?b = "\<lparr>task_id = 2, title = Some ''B'', notes = Some ''n'', progress = Some ''completed'',
       added_on = 11, deadline = Some 30\<rparr>"
  have f: "fetch_task_or_404 2 [?a, ?b] = Inr ?b"
    by (simp add: fetch_task_or_404_def sqlite_integer_def MIN_ROWID_def MAX_ROWID_def)
  from update_nothing_is_identity [OF f] f show ?thesis by simp
qed

text \<open>
  C3. As stated (an absent id gives \<open>NotFound\<close> for every body, the look-up coming
  first) the claim fails: the body is validated before \<^verbatim>\<open>update_task\<close> is entered, so
  an invalid body is answered \<open>InvalidInput\<close> also for an id that is not there.
\<close>

theorem update_validates_before_lookup:
  "fetch_task_or_404 99999 [] = Inl (NotFound 99999) \<and>
   put_task 99999 (no_fields\<lparr>b_progress := Val ''archived''\<rparr>) [] =
     (Inl (InvalidInput [ProgressInvalid]), [])"
  by code_simp

text \<open>
  C3, amended. An update that names an id in the signed 64-bit range that is absent from
  the table is answered \<open>NotFound\<close> when its body passes validation and
  \<open>InvalidInput\<close> when it does not; the table is left as it was.
\<close>

theorem update_absent_id:
  assumes "MIN_ROWID \<le> i" and "i \<le> MAX_ROWID" and "i \<notin> task_id ` set rows"
  shows "put_task i b rows =
           (case EditTask_parse b of
              Inl es \<Rightarrow> Inl (InvalidInput es)
            | Inr payload \<Rightarrow> Inl (NotFound i), rows)"
proof -
  from assms have "fetch_task_or_404 i rows = Inl (NotFound i)"
    by (intro fetch_absent) (simp_all add: sqlite_integer_def)
  then show ?thesis
    by (simp add: put_task_def update_task_def split: sum.splits)
qed

theorem update_absent_id_witness:
  "MIN_ROWID \<le> 99999 \<and> 99999 \<le> MAX_ROWID \<and>
   99999 \<notin> task_id `
     set [\<lparr>task_id = 1, title = Some ''A'', notes = None, progress = Some ''pending'',
           added_on = 10, deadline = None\<rparr>] \<and>
   put_task 99999 (no_fields\<lparr>b_notes := Val ''x''\<rparr>)
     [\<lparr>task_id = 1, title = Some ''A'', notes = None, progress = Some ''pending'',
       added_on = 10, deadline = None\<rparr>] =
     (Inl (NotFound 99999),
      [\<lparr>task_id = 1, title = Some ''A'', notes = None, progress = Some ''pending'',
        added_on = 10, deadline = None\<rparr>])"
proof -
  let ?a = "\<lparr>task_id = 1, title = Some ''A'', notes = None, progress = Some ''pending'',
       added_on = 10, deadline = None\<rparr>"
  have lo: "MIN_ROWID \<le> 99999" and hi: "99999 \<le> MAX_ROWID"
    by (simp_all add: MIN_ROWID_def MAX_ROWID_def)
  have ab: "99999 \<notin> task_id ` set [?a]"
    by simp
  have p: "EditTask_parse (no_fields\<lparr>b_notes := Val ''x''\<rparr>) =
        Inr \<lparr>edit_title = Absent, edit_notes = Val ''x'', edit_progress = Absent,
             edit_deadline = Absent\<rparr>"
    by (simp add: EditTask_parse_def no_fields_def check_progress_def optional_def)
  show ?thesis
    using update_absent_id [OF lo hi ab, of "no_fields\<lparr>b_notes := Val ''x''\<rparr>"] lo hi
    by (simp add: p)
qed

text \<open>
  An id outside that range, with a body that passes validation, is answered with the
  driver's uncaught exception instead; the table is left as it was.
\<close>

lemma put_task_id_out_of_range:
  assumes "\<not> sqlite_integer i" and "EditTask_parse b = Inr p"
  shows "put_task i b rows = (Inl StoreFailure, rows)"
  using assms by (simp add: put_task_def update_task_def fetch_out_of_range)

text \<open>
  An update whose progress is a string outside the three statuses is answered
  \<open>InvalidInput\<close>, whatever the id, with the table as it was.
\<close>

lemma put_task_unknown_progress:
  assumes "b_progress b = Val s" and "s \<notin> VALID_STATUSES"
  shows "put_task i b rows = (Inl (InvalidInput [ProgressInvalid]), rows)"
  using assms
  by (simp add: put_task_def EditTask_parse_def check_progress_def optional_def)

text \<open>
  C2. The code does not reject an update whose progress is \<^verbatim>\<open>null\<close>:
  \<^verbatim>\<open>check_progress\<close> lets \<^verbatim>\<open>None\<close> through, the field counts as set, and the row is
  written with progress NULL. (\<^verbatim>\<open>NewTask\<close> rejects the same value, and \<^verbatim>\<open>TaskOut\<close>
  declares \<^verbatim>\<open>progress: str\<close>.)
\<close>

theorem update_stores_null_progress:
  "put_task 1 (no_fields\<lparr>b_progress := Null\<rparr>)
     [\<lparr>task_id = 1, title = Some ''A'', notes = None, progress = Some ''pending'',
       added_on = 10, deadline = None\<rparr>] =
     (Inr \<lparr>task_id = 1, title = Some ''A'', notes = None, progress = None,
           added_on = 10, deadline = None\<rparr>,
      [\<lparr>task_id = 1, title = Some ''A'', notes = None, progress = None,
        added_on = 10, deadline = None\<rparr>])"
  by code_simp

text \<open>
  C1. The code does not keep titles non-blank and trimmed on update: \<^verbatim>\<open>EditTask\<close> has
  no validator for \<^verbatim>\<open>title\<close> (\<^verbatim>\<open>NewTask\<close> has \<^verbatim>\<open>title_must_exist\<close>), so the string
  given is stored as it is.
\<close>

theorem update_stores_blank_title:
  "map title
     (run [Create (no_fields\<lparr>b_title := Val ''A''\<rparr>) 0,
           Update 1 (no_fields\<lparr>b_title := Val ''   ''\<rparr>)] []) = [Some ''   ''] \<and>
   blank (Some ''   '') \<and>
   map title
     (run [Create (no_fields\<lparr>b_title := Val ''A''\<rparr>) 0,
           Update 1 (no_fields\<lparr>b_title := Val '' B ''\<rparr>)] []) = [Some '' B '']"
  by code_simp

text \<open>The NOT NULL column is kept: no request leaves a row without a title.\<close>

lemma title_not_null_handle:
  assumes "list_all (\<lambda>t. title t \<noteq> None) rows"
  shows "list_all (\<lambda>t. title t \<noteq> None) (handle r rows)"
proof (cases r)
  case (Create b now)
  then show ?thesis
    using assms
    by (auto simp: post_tasks_def create_task_def Let_def split: sum.splits option.splits)
next
  case (Update i b)
  then show ?thesis
    using assms
    by (auto simp: put_task_def update_task_def Let_def list_all_iff title_changes
        SetTitle_None_changes split: sum.splits field.splits)
next
  case (Delete i)
  then show ?thesis
    using assms by (auto simp: remove_task_def list_all_iff split: sum.splits)
qed

lemma title_not_null_run_from:
  "list_all (\<lambda>t. title t \<noteq> None) rows \<Longrightarrow> list_all (\<lambda>t. title t \<noteq> None) (run rs rows)"
proof (induction rs arbitrary: rows)
  case Nil
  then show ?case by (simp add: run_def)
next
  case (Cons r rs)
  from Cons.IH [OF title_not_null_handle [OF Cons.prems]] show ?case
    by (simp add: run_def)
qed

lemma title_not_null_run: "list_all (\<lambda>t. title t \<noteq> None) (run rs [])"
  by (rule title_not_null_run_from) simp

subsection \<open>Deleting a task\<close>

lemma fetch_after_remove:
  "sqlite_integer i \<Longrightarrow>
     fetch_task_or_404 i (filter (\<lambda>r. task_id r \<noteq> i) rows) = Inl (NotFound i)"
  by (rule fetch_absent) auto

lemma set_get_all_tasks: "set (get_all_tasks rows) = set rows"
  by (simp add: get_all_tasks_def)

text \<open>
  C9. Deleting an existing task is answered with success and no content; afterwards a
  get of the same id is answered \<open>NotFound\<close>, and the task (nor any record of its id)
  is in the list any more.
\<close>

theorem delete_then_gone:
  assumes "fetch_task_or_404 i rows = Inr t"
  shows "fst (remove_task i rows) = Inr () \<and>
         get_single_task i (snd (remove_task i rows)) = Inl (NotFound i) \<and>
         t \<notin> set (get_all_tasks (snd (remove_task i rows))) \<and>
         i \<notin> task_id ` set (get_all_tasks (snd (remove_task i rows)))"
  using assms fetch_Inr_D [OF assms]
  by (auto simp: remove_task_def get_single_task_def fetch_after_remove set_get_all_tasks)

theorem delete_then_gone_witness:
  "fetch_task_or_404 1
     [\<lparr>task_id = 1, title = Some ''A'', notes = None, progress = Some ''pending'',
       added_on = 10, deadline = None\<rparr>,
      \<lparr>task_id = 2, title = Some ''B'', notes = None, progress = Some ''pending'',
       added_on = 11, deadline = None\<rparr>] =
     Inr \<lparr>task_id = 1, title = Some ''A'', notes = None, progress = Some ''pending'',
          added_on = 10, deadline = None\<rparr> \<and>
   remove_task 1
     [\<lparr>task_id = 1, title = Some ''A'', notes = None, progress = Some ''pending'',
       added_on = 10, deadline = None\<rparr>,
      \<lparr>task_id = 2, title = Some ''B'', notes = None, progress = Some ''pending'',
       added_on = 11, deadline = None\<rparr>] =
     (Inr (), [\<lparr>task_id = 2, title = Some ''B'', notes = None, progress = Some ''pending'',
       added_on = 11, deadline = None\<rparr>]) \<and>
   get_single_task 1
     [\<lparr>task_id = 2, title = Some ''B'', notes = None, progress = Some ''pending'',
       added_on = 11, deadline = None\<rparr>] = Inl (NotFound 1) \<and>
   get_all_tasks
     [\<lparr>task_id = 2, title = Some ''B'', notes = None, progress = Some ''pending'',
       added_on = 11, deadline = None\<rparr>] =
     [\<lparr>task_id = 2, title = Some ''B'', notes = None, progress = Some ''pending'',
       added_on = 11, deadline = None\<rparr>]"
proof -
  let ?a = "\<lparr>task_id = 1, title = Some ''A'', notes = None, progress = Some ''pending'',
       added_on = 10, deadline = None\<rparr>"
  let ?b = "\<lparr>task_id = 2, title = Some ''B'', notes = None, progress = Some ''pending'',
       added_on = 11, deadline = None\<rparr>"
  have f: "fetch_task_or_404 1 [?a, ?b] = Inr ?a"
    by (simp add: fetch_task_or_404_def sqlite_integer_def MIN_ROWID_def MAX_ROWID_def)
  have r: "remove_task 1 [?a, ?b] = (Inr (), [?b])"
    by (simp add: remove_task_def f)
  have l: "get_all_tasks [?b] = [?b]"
    by (simp add: get_all_tasks_def)
  from delete_then_gone [OF f] f r l show ?thesis by simp
qed

subsection \<open>Listing the tasks\<close>

lemma get_all_tasks_sorted:
  "sorted_wrt (\<lambda>x y. added_on y \<le> added_on x) (get_all_tasks rows)"
proof -
  have "sorted (map (\<lambda>t. - added_on t) (get_all_tasks rows))"
    unfolding get_all_tasks_def by (rule sorted_sort_key)
  then show ?thesis by (simp add: sorted_map)
qed

lemma get_all_tasks_stable:
  "filter (\<lambda>t. added_on t = k) (get_all_tasks rows) = filter (\<lambda>t. added_on t = k) rows"
  using sort_key_stable [of "\<lambda>t. - added_on t" "- k" rows]
  by (simp add: get_all_tasks_def)

lemma mset_get_all_tasks: "mset (get_all_tasks rows) = mset rows"
  by (simp add: get_all_tasks_def)

text \<open>Three creates on the empty table go through, with the ids 1, 2 and 3.\<close>

lemma three_creates:
  assumes "NewTask_parse a = Inr pa" and "NewTask_parse b = Inr pb"
    and "NewTask_parse c = Inr pc"
  shows "\<exists>A B C. post_tasks a ta [] = (Inr A, [A]) \<and> post_tasks b tb [A] = (Inr B, [A, B]) \<and>
           post_tasks c tc [A, B] = (Inr C, [A, B, C]) \<and>
           added_on A = ta \<and> added_on B = tb \<and> added_on C = tc"
  using assms
  by (simp add: post_tasks_def create_task_def next_rowid_def MAX_ROWID_def Let_def)

text \<open>
  C5. As stated the claim fails in its example: \<^verbatim>\<open>added_on\<close> is the reading of the wall
  clock at each create, and when the readings do not increase (the clock is set back
  between the creates, or is read three times within its resolution) the list is not
  [C, B, A].
\<close>

theorem list_not_newest_first:
  "map title (get_all_tasks
     (run [Create (no_fields\<lparr>b_title := Val ''A''\<rparr>) 3,
           Create (no_fields\<lparr>b_title := Val ''B''\<rparr>) 2,
           Create (no_fields\<lparr>b_title := Val ''C''\<rparr>) 1] [])) =
     [Some ''A'', Some ''B'', Some ''C''] \<and>
   map title (get_all_tasks
     (run [Create (no_fields\<lparr>b_title := Val ''A''\<rparr>) 5,
           Create (no_fields\<lparr>b_title := Val ''B''\<rparr>) 5,
           Create (no_fields\<lparr>b_title := Val ''C''\<rparr>) 5] [])) =
     [Some ''A'', Some ''B'', Some ''C'']"
  by code_simp

text \<open>
  C5, amended. For every table, the list holds the records of the table in descending
  order of \<^verbatim>\<open>added_on\<close>, records of equal \<^verbatim>\<open>added_on\<close> in the order of the table
  (insertion order). After valid creates of A, B and C on the empty table at strictly
  increasing clock readings, the list is [C, B, A].
\<close>

theorem list_newest_first:
  "sorted_wrt (\<lambda>x y. added_on y \<le> added_on x) (get_all_tasks rows) \<and>
   mset (get_all_tasks rows) = mset rows \<and>
   (\<forall>k. filter (\<lambda>t. added_on t = k) (get_all_tasks rows) = filter (\<lambda>t. added_on t = k) rows) \<and>
   (NewTask_parse a = Inr pa \<and> NewTask_parse b = Inr pb \<and> NewTask_parse c = Inr pc \<and>
    ta < tb \<and> tb < tc \<longrightarrow>
      (\<exists>A B C. post_tasks a ta [] = (Inr A, [A]) \<and> post_tasks b tb [A] = (Inr B, [A, B]) \<and>
         post_tasks c tc [A, B] = (Inr C, [A, B, C]) \<and>
         get_all_tasks [A, B, C] = [C, B, A]))"
proof -
  have "\<exists>A B C. post_tasks a ta [] = (Inr A, [A]) \<and> post_tasks b tb [A] = (Inr B, [A, B]) \<and>
         post_tasks c tc [A, B] = (Inr C, [A, B, C]) \<and> get_all_tasks [A, B, C] = [C, B, A]"
    if p: "NewTask_parse a = Inr pa" "NewTask_parse b = Inr pb" "NewTask_parse c = Inr pc"
      and lt: "ta < tb" "tb < tc"
  proof -
    from three_creates [OF p, of ta tb tc] obtain A B C where
      c: "post_tasks a ta [] = (Inr A, [A])" "post_tasks b tb [A] = (Inr B, [A, B])"
        "post_tasks c tc [A, B] = (Inr C, [A, B, C])"
      and t: "added_on A = ta" "added_on B = tb" "added_on C = tc"
      by blast
    from t lt have "get_all_tasks [A, B, C] = [C, B, A]"
      by (simp add: get_all_tasks_def)
    with c show ?thesis by blast
  qed
  then show ?thesis
    by (simp add: get_all_tasks_sorted mset_get_all_tasks get_all_tasks_stable)
qed

theorem list_newest_first_witness:
  "NewTask_parse (no_fields\<lparr>b_title := Val ''A''\<rparr>) =
     Inr \<lparr>new_title = ''A'', new_notes = None, new_progress = Some ''pending'',
          new_deadline = None\<rparr> \<and>
   NewTask_parse (no_fields\<lparr>b_title := Val ''B''\<rparr>) =
     Inr \<lparr>new_title = ''B'', new_notes = None, new_progress = Some ''pending'',
          new_deadline = None\<rparr> \<and>
   NewTask_parse (no_fields\<lparr>b_title := Val ''C''\<rparr>) =
     Inr \<lparr>new_title = ''C'', new_notes = None, new_progress = Some ''pending'',
          new_deadline = None\<rparr> \<and>
   (1::int) < 2 \<and> (2::int) < 3 \<and>
   (\<exists>A B C.
      post_tasks (no_fields\<lparr>b_title := Val ''A''\<rparr>) 1 [] = (Inr A, [A]) \<and>
      post_tasks (no_fields\<lparr>b_title := Val ''B''\<rparr>) 2 [A] = (Inr B, [A, B]) \<and>
      post_tasks (no_fields\<lparr>b_title := Val ''C''\<rparr>) 3 [A, B] = (Inr C, [A, B, C]) \<and>
      get_all_tasks [A, B, C] = [C, B, A])"
proof -
  have p: "NewTask_parse (no_fields\<lparr>b_title := Val [c]\<rparr>) =
     Inr \<lparr>new_title = [c], new_notes = None, new_progress = Some ''pending'',
          new_deadline = None\<rparr>" if "\<not> isspace c" for c
    using that
    by (simp add: NewTask_parse_def NewTask_title_def NewTask_progress_def title_must_exist_def
        strip_def optional_def no_fields_def)
  have s: "\<not> isspace CHR ''A''" "\<not> isspace CHR ''B''" "\<not> isspace CHR ''C''"
    by (simp_all add: isspace_def)
  from list_newest_first [of "[]" "no_fields\<lparr>b_title := Val ''A''\<rparr>" _
      "no_fields\<lparr>b_title := Val ''B''\<rparr>" _ "no_fields\<lparr>b_title := Val ''C''\<rparr>" _ 1 2 3]
    p [OF s(1)] p [OF s(2)] p [OF s(3)]
  show ?thesis by simp
qed

end
